theory Spec2Isabelle
  imports Main "HOL-Library.Sublist" "HOL-Library.Multiset"
begin

section \<open>The persistence client of lib/api.ts\<close>

subsection \<open>Data model\<close>

text \<open>
  Every timestamp the client writes is \<^verbatim>\<open>new Date().toISOString()\<close> and every timestamp it
  reads goes through \<^verbatim>\<open>new Date(s).getTime()\<close>. The two are inverse on the strings the client
  writes, so a timestamp is carried as its time value, the milliseconds since the epoch.
  \<^verbatim>\<open>Date.now()\<close> yields the same kind of number. JavaScript numbers that hold counts and
  identifiers are integers here.
\<close>

type_synonym timestamp = int

text \<open>
  An account object. The interface \<^verbatim>\<open>User\<close> has no password; the objects of the
  \<^verbatim>\<open>fallback_users\<close> list are \<^verbatim>\<open>{ ...newUser, password }\<close>. One record covers both: the
  property \<^verbatim>\<open>password\<close> is present (\<open>Some\<close>) or absent (\<open>None\<close>), as \<^verbatim>\<open>phone\<close> and
  \<^verbatim>\<open>name\<close> are.
\<close>

record user =
  user_id :: int
  email :: string
  phone :: "string option"
  name :: "string option"
  created_at :: timestamp
  password :: "string option"

record result =
  success :: bool
  message :: string

record auth_response = result +
  user :: "user option"
  token :: "string option"

record purchase_data =
  purchase_user_id :: int
  song_title :: string
  artist_name :: string
  category :: string
  video_url :: string
  amount :: int

record stored_purchase = purchase_data +
  purchase_id :: int
  purchased_at :: timestamp

datatype event_type = Signup | Signin | Song_selection | Recording_complete | Payment

datatype detail_value = Text string | Number int

record activity_log =
  activity_id :: string
  userId :: int
  eventType :: event_type
  timestamp :: timestamp
  details :: "(string \<times> detail_value) list"

record user_report =
  report_userId :: int
  report_email :: string
  artistName :: "string option"
  totalSignIns :: nat
  songsSelected :: nat
  recordingsCompleted :: nat
  paymentsCompleted :: nat
  lastActivity :: timestamp
  activities :: "activity_log list"

record ranked_report = user_report +
  totalActivity :: nat

text \<open>
  The keys of \<^verbatim>\<open>localStorage\<close> the client uses. A list key that is missing reads as the
  empty list (\<^verbatim>\<open>JSON.parse(getItem(k) || "[]")\<close>).
\<close>

record store =
  fallback_users :: "user list"
  auth_token :: "string option"
  user_data :: "user option"
  user_activities :: "activity_log list"
  user_purchases :: "stored_purchase list"

text \<open>
  What one \<^verbatim>\<open>fetch\<close> inside a \<^verbatim>\<open>try\<close> block comes to: the promise rejects (transport
  error, or the abort of the timeout), or a response arrives with its \<^verbatim>\<open>ok\<close> flag and a body
  that \<^verbatim>\<open>response.json()\<close> parses (\<open>Some\<close>) or throws on (\<open>None\<close>).
\<close>

datatype 'a fetch_outcome = Rejected | Response bool "'a option"

datatype effect = LocalWrite string | RemoteCall string

definition USE_FALLBACK :: bool where
  "USE_FALLBACK = True"

subsection \<open>Strings\<close>

definition digit_char :: "nat \<Rightarrow> char" where
  "digit_char d = ''0123456789'' ! d"

fun digits10 :: "nat \<Rightarrow> string" where
  "digits10 n = (if n < 10 then [digit_char n] else digits10 (n div 10) @ [digit_char (n mod 10)])"

declare digits10.simps [simp del]

text \<open>The string of an integral JavaScript number, as a template literal or \<^verbatim>\<open>join\<close> renders it.\<close>

definition string_of_int :: "int \<Rightarrow> string" where
  "string_of_int i = (if i < 0 then CHR ''-'' # digits10 (nat (- i)) else digits10 (nat i))"

text \<open>\<^verbatim>\<open>Array.prototype.join\<close> on an array of strings.\<close>

fun join :: "string \<Rightarrow> string list \<Rightarrow> string" where
  "join sep [] = []"
| "join sep [x] = x"
| "join sep (x # y # ys) = x @ sep @ join sep (y # ys)"

definition newline :: char where
  "newline = CHR 0x0A"

definition quote :: char where
  "quote = CHR 0x22"

subsection \<open>Arrays\<close>

text \<open>
  \<^verbatim>\<open>Array.prototype.sort(cmp)\<close>: a stable sort; \<open>x\<close> stays before \<open>y\<close> unless
  \<open>cmp x y > 0\<close>.
\<close>

fun insert_cmp :: "('a \<Rightarrow> 'a \<Rightarrow> int) \<Rightarrow> 'a \<Rightarrow> 'a list \<Rightarrow> 'a list" where
  "insert_cmp cmp x [] = [x]"
| "insert_cmp cmp x (y # ys) = (if cmp x y \<le> 0 then x # y # ys else y # insert_cmp cmp x ys)"

definition array_sort :: "('a \<Rightarrow> 'a \<Rightarrow> int) \<Rightarrow> 'a list \<Rightarrow> 'a list" where
  "array_sort cmp xs = foldr (insert_cmp cmp) xs []"

text \<open>
  \<^verbatim>\<open>xs.slice(0, end)\<close> for an integral \<open>end\<close>: a negative \<open>end\<close> counts from the end of the
  array, and the bound is clamped to the array.
\<close>

definition slice0 :: "'a list \<Rightarrow> int \<Rightarrow> 'a list" where
  "slice0 xs e =
     (let len = int (length xs);
          final = (if e < 0 then max (len + e) 0 else min e len)
      in take (nat final) xs)"

subsection \<open>Session accessors\<close>

definition getAuthToken :: "store \<Rightarrow> string option" where
  "getAuthToken st = auth_token st"

definition getCurrentUser :: "store \<Rightarrow> user option" where
  "getCurrentUser st = user_data st"

definition isAuthenticated :: "store \<Rightarrow> bool" where
  "isAuthenticated st = (case getAuthToken st of None \<Rightarrow> False | Some t \<Rightarrow> t \<noteq> [])"

subsection \<open>Fallback authentication\<close>

definition fallbackSignup ::
  "store \<Rightarrow> int \<Rightarrow> timestamp \<Rightarrow> string \<Rightarrow> string \<Rightarrow> string option \<Rightarrow> string option
    \<Rightarrow> auth_response \<times> store" where
  "fallbackSignup st now date e pw ph nm =
     (let users = fallback_users st in
      if find (\<lambda>u. email u = e) users \<noteq> None
      then (\<lparr>success = False, message = ''User already exists with this email.'',
             user = None, token = None\<rparr>, st)
      else
        let newUser = \<lparr>user_id = now, email = e, phone = ph, name = nm, created_at = date,
                       password = None\<rparr>;
            userData = newUser\<lparr>password := Some pw\<rparr>;
            tok = ''fallback_token_'' @ string_of_int (user_id newUser)
        in (\<lparr>success = True, message = ''Account created successfully!'',
             user = Some newUser, token = Some tok\<rparr>,
            st\<lparr>fallback_users := users @ [userData], auth_token := Some tok,
               user_data := Some newUser\<rparr>))"

definition fallbackSignin :: "store \<Rightarrow> string \<Rightarrow> string \<Rightarrow> auth_response \<times> store" where
  "fallbackSignin st e pw =
     (case find (\<lambda>u. email u = e \<and> password u = Some pw) (fallback_users st) of
        None \<Rightarrow>
          (\<lparr>success = False, message = ''Invalid email or password.'',
            user = None, token = None\<rparr>, st)
      | Some u \<Rightarrow>
          let userWithoutPassword = u\<lparr>password := None\<rparr>;
              tok = ''fallback_token_'' @ string_of_int (user_id u)
          in (\<lparr>success = True, message = ''Signed in successfully!'',
               user = Some userWithoutPassword, token = Some tok\<rparr>,
              st\<lparr>auth_token := Some tok, user_data := Some userWithoutPassword\<rparr>))"

subsection \<open>The activity log\<close>

text \<open>
  \<open>now\<close> is \<^verbatim>\<open>Date.now()\<close>, \<open>rnd\<close> the characters taken from \<^verbatim>\<open>Math.random()\<close>,
  \<open>date\<close> the reading of \<^verbatim>\<open>new Date()\<close>. When the flag is off the event is also posted to
  the remote API; the promise is not awaited and its outcome is only logged to the console,
  so the store does not depend on it.
\<close>

definition logActivity ::
  "store \<Rightarrow> int \<Rightarrow> string \<Rightarrow> timestamp \<Rightarrow> event_type \<Rightarrow> (string \<times> detail_value) list \<Rightarrow> store" where
  "logActivity st now rnd date ev ds =
     (case getCurrentUser st of
        None \<Rightarrow> st
      | Some u \<Rightarrow>
          let activity = \<lparr>activity_id = string_of_int now @ ''_'' @ rnd, userId = user_id u,
                          eventType = ev, timestamp = date, details = ds\<rparr>
          in st\<lparr>user_activities := user_activities st @ [activity]\<rparr>)"

text \<open>A property whose value is \<^verbatim>\<open>undefined\<close> is dropped when the object is serialised.\<close>

definition text_field :: "string \<Rightarrow> string option \<Rightarrow> (string \<times> detail_value) list" where
  "text_field k v = (case v of None \<Rightarrow> [] | Some s \<Rightarrow> [(k, Text s)])"

definition logSongSelection :: "store \<Rightarrow> int \<Rightarrow> string \<Rightarrow> timestamp \<Rightarrow> string \<Rightarrow> string \<Rightarrow> store" where
  "logSongSelection st now rnd date songTitle cat =
     logActivity st now rnd date Song_selection
       [(''songTitle'', Text songTitle), (''category'', Text cat)]"

definition logRecordingComplete ::
  "store \<Rightarrow> int \<Rightarrow> string \<Rightarrow> timestamp \<Rightarrow> string \<Rightarrow> string \<Rightarrow> store" where
  "logRecordingComplete st now rnd date songTitle cat =
     logActivity st now rnd date Recording_complete
       [(''songTitle'', Text songTitle), (''category'', Text cat)]"

definition logPayment ::
  "store \<Rightarrow> int \<Rightarrow> string \<Rightarrow> timestamp \<Rightarrow> string \<Rightarrow> string \<Rightarrow> int \<Rightarrow> store" where
  "logPayment st now rnd date songTitle cat amt =
     logActivity st now rnd date Payment
       [(''songTitle'', Text songTitle), (''category'', Text cat), (''paymentAmount'', Number amt)]"

subsection \<open>Sign-up, sign-in, sign-out\<close>

text \<open>
  The module constant \<^verbatim>\<open>USE_FALLBACK\<close> is passed to the operations that read it as their
  first argument \<open>fb\<close>; the client as shipped runs them with \<open>fb = USE_FALLBACK\<close>.
  \<open>outcome\<close> is what the one \<^verbatim>\<open>fetch\<close> of the remote path comes to.
\<close>

definition truthy_string :: "string option \<Rightarrow> bool" where
  "truthy_string t = (case t of None \<Rightarrow> False | Some s \<Rightarrow> s \<noteq> [])"

text \<open>
  A success body that carries a token and no \<^verbatim>\<open>user\<close> makes the client cache the text
  \<^verbatim>\<open>undefined\<close>; the model caches no account there.
\<close>

definition performAPISignup ::
  "auth_response fetch_outcome \<Rightarrow> store \<Rightarrow> int \<Rightarrow> timestamp \<Rightarrow> string \<Rightarrow> string
    \<Rightarrow> string option \<Rightarrow> string option \<Rightarrow> auth_response \<times> store" where
  "performAPISignup outcome st now date e pw ph nm =
     (case outcome of
        Response True (Some data) \<Rightarrow>
          (data, if success data \<and> truthy_string (token data)
                 then st\<lparr>auth_token := token data, user_data := user data\<rparr> else st)
      | _ \<Rightarrow> fallbackSignup st now date e pw ph nm)"

definition performAPISignin ::
  "auth_response fetch_outcome \<Rightarrow> store \<Rightarrow> string \<Rightarrow> string \<Rightarrow> auth_response \<times> store" where
  "performAPISignin outcome st e pw =
     (case outcome of
        Response True (Some data) \<Rightarrow>
          (data, if success data \<and> truthy_string (token data)
                 then st\<lparr>auth_token := token data, user_data := user data\<rparr> else st)
      | _ \<Rightarrow> fallbackSignin st e pw)"

text \<open>
  \<open>now\<close> and \<open>date\<close> are the clock readings of the account creation, \<open>lnow\<close>, \<open>rnd\<close> and
  \<open>ldate\<close> the readings of the activity event that follows a success.
\<close>

definition signup ::
  "bool \<Rightarrow> auth_response fetch_outcome \<Rightarrow> store \<Rightarrow> int \<Rightarrow> timestamp \<Rightarrow> int \<Rightarrow> string \<Rightarrow> timestamp
    \<Rightarrow> string \<Rightarrow> string \<Rightarrow> string option \<Rightarrow> string option \<Rightarrow> auth_response \<times> store" where
  "signup fb outcome st now date lnow rnd ldate e pw ph nm =
     (let (res, st1) = (if fb then fallbackSignup st now date e pw ph nm
                        else performAPISignup outcome st now date e pw ph nm)
      in (res, if success res
               then logActivity st1 lnow rnd ldate Signup
                      (text_field ''email'' (Some e) @ text_field ''phone'' ph @ text_field ''name'' nm)
               else st1))"

definition signin ::
  "bool \<Rightarrow> auth_response fetch_outcome \<Rightarrow> store \<Rightarrow> int \<Rightarrow> string \<Rightarrow> timestamp
    \<Rightarrow> string \<Rightarrow> string \<Rightarrow> auth_response \<times> store" where
  "signin fb outcome st lnow rnd ldate e pw =
     (let (res, st1) = (if fb then fallbackSignin st e pw else performAPISignin outcome st e pw)
      in (res, if success res
               then logActivity st1 lnow rnd ldate Signin (text_field ''email'' (Some e))
               else st1))"

text \<open>The remote invalidation call of \<^verbatim>\<open>logout\<close> is caught and leaves no trace in the store.\<close>

definition logout :: "bool \<Rightarrow> store \<Rightarrow> store" where
  "logout fb st = st\<lparr>auth_token := None, user_data := None\<rparr>"

subsection \<open>Purchases\<close>

text \<open>
  \<^verbatim>\<open>savePurchase\<close> returns its result, the store it leaves, and the storage writes and remote
  calls it made, in order.
\<close>

definition savePurchase ::
  "bool \<Rightarrow> result fetch_outcome \<Rightarrow> store \<Rightarrow> int \<Rightarrow> timestamp \<Rightarrow> purchase_data
    \<Rightarrow> result \<times> store \<times> effect list" where
  "savePurchase fb outcome st now date pd =
     (let purchaseWithId =
            \<lparr>purchase_user_id = purchase_user_id pd, song_title = song_title pd,
             artist_name = artist_name pd, category = category pd, video_url = video_url pd,
             amount = amount pd, purchase_id = now, purchased_at = date\<rparr>;
          st1 = st\<lparr>user_purchases := user_purchases st @ [purchaseWithId]\<rparr>
      in if fb
         then (\<lparr>success = True, message = ''Purchase saved successfully!''\<rparr>, st1,
               [LocalWrite ''user_purchases''])
         else
           ((case outcome of
               Response True (Some body) \<Rightarrow> body
             | _ \<Rightarrow> \<lparr>success = True, message = ''Purchase saved locally (API unavailable).''\<rparr>),
            st1, [LocalWrite ''user_purchases'', RemoteCall ''/api/purchases'']))"

subsection \<open>Reports\<close>

definition getUserById :: "store \<Rightarrow> int \<Rightarrow> user option" where
  "getUserById st uid =
     (case find (\<lambda>u. user_id u = uid) (fallback_users st) of
        None \<Rightarrow> None
      | Some userData \<Rightarrow> Some (userData\<lparr>password := None\<rparr>))"

text \<open>
  The first statement of \<^verbatim>\<open>getUserReport\<close>,
  \<^verbatim>\<open>userId ? this.getUserById(userId) : this.getCurrentUser()\<close>: an absent argument and the
  number 0 are both falsy.
\<close>

definition resolveUser :: "store \<Rightarrow> int option \<Rightarrow> user option" where
  "resolveUser st uid =
     (case uid of
        None \<Rightarrow> getCurrentUser st
      | Some n \<Rightarrow> if n \<noteq> 0 then getUserById st n else getCurrentUser st)"

definition count_events :: "event_type \<Rightarrow> activity_log list \<Rightarrow> nat" where
  "count_events ev as = length (filter (\<lambda>a. eventType a = ev) as)"

definition getUserReport :: "store \<Rightarrow> int option \<Rightarrow> user_report option" where
  "getUserReport st uid =
     (case resolveUser st uid of
        None \<Rightarrow> None
      | Some u \<Rightarrow>
          let acts = array_sort (\<lambda>a b. timestamp b - timestamp a)
                       (filter (\<lambda>activity. userId activity = user_id u) (user_activities st))
          in Some \<lparr>report_userId = user_id u, report_email = email u, artistName = name u,
                   totalSignIns = count_events Signin acts,
                   songsSelected = count_events Song_selection acts,
                   recordingsCompleted = count_events Recording_complete acts,
                   paymentsCompleted = count_events Payment acts,
                   lastActivity = (case acts of [] \<Rightarrow> created_at u | a # _ \<Rightarrow> timestamp a),
                   activities = acts\<rparr>)"

definition getAllUserReports :: "store \<Rightarrow> user_report list" where
  "getAllUserReports st =
     List.map_filter (\<lambda>u. getUserReport st (Some (user_id u))) (fallback_users st)"

definition with_totalActivity :: "user_report \<Rightarrow> ranked_report" where
  "with_totalActivity r =
     \<lparr>report_userId = report_userId r, report_email = report_email r, artistName = artistName r,
      totalSignIns = totalSignIns r, songsSelected = songsSelected r,
      recordingsCompleted = recordingsCompleted r, paymentsCompleted = paymentsCompleted r,
      lastActivity = lastActivity r, activities = activities r,
      totalActivity = totalSignIns r + songsSelected r + recordingsCompleted r + paymentsCompleted r\<rparr>"

text \<open>The limit is an integral number; an absent argument is the default 10.\<close>

definition getTopUsers :: "store \<Rightarrow> int option \<Rightarrow> ranked_report list" where
  "getTopUsers st limit =
     slice0
       (array_sort (\<lambda>a b. int (totalActivity b) - int (totalActivity a))
          (map with_totalActivity (getAllUserReports st)))
       (case limit of None \<Rightarrow> 10 | Some k \<Rightarrow> k)"

definition headers :: "string list" where
  "headers = [''User ID'', ''Email'', ''Artist Name'', ''Sign-ins'', ''Songs Selected'',
              ''Recordings'', ''Payments'', ''Last Activity'']"

definition quoted :: "string \<Rightarrow> string" where
  "quoted s = quote # s @ [quote]"

text \<open>
  One row of the export. \<open>toLocaleString\<close> is the host's rendering of a date in the
  user's locale.
\<close>

definition csv_row :: "(timestamp \<Rightarrow> string) \<Rightarrow> user_report \<Rightarrow> string" where
  "csv_row toLocaleString report =
     join '',''
       [string_of_int (report_userId report),
        quoted (report_email report),
        quoted (case artistName report of None \<Rightarrow> [] | Some s \<Rightarrow> s),
        string_of_int (int (totalSignIns report)),
        string_of_int (int (songsSelected report)),
        string_of_int (int (recordingsCompleted report)),
        string_of_int (int (paymentsCompleted report)),
        quoted (toLocaleString (lastActivity report))]"

definition exportUserData :: "(timestamp \<Rightarrow> string) \<Rightarrow> store \<Rightarrow> string" where
  "exportUserData toLocaleString st =
     join [newline] (join '','' headers # map (csv_row toLocaleString) (getAllUserReports st))"

section \<open>The recording session of components/song-selection.tsx\<close>

text \<open>
  The state of \<^verbatim>\<open>KaraokeRecording\<close>: its React state variables and the objects its refs
  hold. Each handler reads the state of the render it was created in and returns the state
  after its updates, with the messages it passed to \<^verbatim>\<open>alert\<close>.
\<close>

record blob =
  blob_size :: nat
  blob_type :: string

datatype recorder_state = Inactive | Recording

text \<open>
  A \<^verbatim>\<open>MediaRecorder\<close>: \<open>stop_pending\<close> holds between the call of \<^verbatim>\<open>stop()\<close> and the
  delivery of the \<^verbatim>\<open>stop\<close> event to \<^verbatim>\<open>onstop\<close>.
\<close>

record recorder =
  rec_state :: recorder_state
  mimeType :: string
  stop_pending :: bool

record video =
  currentTime :: nat
  paused :: bool

record session =
  isRecording :: bool
  recordedBlob :: "blob option"
  recordingTime :: nat
  hasPermission :: bool
  karaokeVideoPlaying :: bool
  videoLoadError :: bool
  karaokeVideoRef :: "video option"
  mediaRecorderRef :: "recorder option"
  streamRef :: "nat option"
  recordingTimerRef :: bool
  recordedChunksRef :: "nat list"

text \<open>
  \<open>streamRef\<close> holds the number of live tracks of the capture stream; \<open>recordingTimerRef\<close>
  tells whether the one-second interval is set; a chunk is its size in bytes.
\<close>

datatype recorder_fault = No_fault | Constructor_throws | Start_throws

definition supportedTypes :: "string list" where
  "supportedTypes = [''video/webm;codecs=vp8,opus'', ''video/webm;codecs=vp9,opus'',
                     ''video/webm'', ''video/mp4'']"

definition pick_mimeType :: "(string \<Rightarrow> bool) \<Rightarrow> string" where
  "pick_mimeType isTypeSupported =
     (case find isTypeSupported supportedTypes of None \<Rightarrow> [] | Some t \<Rightarrow> t)"

definition startRecording ::
  "(string \<Rightarrow> bool) \<Rightarrow> string \<Rightarrow> recorder_fault \<Rightarrow> session \<Rightarrow> session \<times> string list" where
  "startRecording isTypeSupported default_mime fault s =
     (case streamRef s of
        None \<Rightarrow> (s, [''Camera and microphone permissions are required''])
      | Some activeTracks \<Rightarrow>
          if \<not> hasPermission s then (s, [''Camera and microphone permissions are required''])
          else if activeTracks = 0
          then (s, [''Camera and microphone are not active. Please refresh and try again.''])
          else
            let s1 = s\<lparr>recordedChunksRef := []\<rparr>;
                chosen = pick_mimeType isTypeSupported;
                mediaRecorder = \<lparr>rec_state = Inactive,
                                 mimeType = (if chosen \<noteq> [] then chosen else default_mime),
                                 stop_pending = False\<rparr>;
                failed = ''Recording failed. Please check your camera and microphone permissions and try again.''
            in (case fault of
                 Constructor_throws \<Rightarrow> (s1, [failed])
               | Start_throws \<Rightarrow> (s1\<lparr>mediaRecorderRef := Some mediaRecorder\<rparr>, [failed])
               | No_fault \<Rightarrow>
                   let s2 = s1\<lparr>mediaRecorderRef := Some (mediaRecorder\<lparr>rec_state := Recording\<rparr>),
                               isRecording := True, recordingTime := 0\<rparr>;
                       s3 = (case karaokeVideoRef s2 of
                               None \<Rightarrow> s2
                             | Some v \<Rightarrow>
                                 if videoLoadError s2 then s2
                                 else s2\<lparr>karaokeVideoRef := Some (v\<lparr>currentTime := 0, paused := False\<rparr>),
                                         karaokeVideoPlaying := True\<rparr>)
                   in (s3\<lparr>recordingTimerRef := True\<rparr>, [])))"

text \<open>The callback of the one-second interval.\<close>

definition tick :: "session \<Rightarrow> session" where
  "tick s = s\<lparr>recordingTime := recordingTime s + 1\<rparr>"

definition ondataavailable :: "nat \<Rightarrow> session \<Rightarrow> session" where
  "ondataavailable sz s =
     (if sz > 0 then s\<lparr>recordedChunksRef := recordedChunksRef s @ [sz]\<rparr> else s)"

text \<open>\<^verbatim>\<open>stop()\<close> on a recorder: a recorder that is not recording is left as it is.\<close>

definition recorder_stop :: "recorder \<Rightarrow> recorder" where
  "recorder_stop r =
     (if rec_state r = Recording then r\<lparr>rec_state := Inactive, stop_pending := True\<rparr> else r)"

definition onstop :: "session \<Rightarrow> session \<times> string list" where
  "onstop s =
     (case mediaRecorderRef s of
        None \<Rightarrow> (s, [])
      | Some r \<Rightarrow>
          let finalMimeType = (if mimeType r \<noteq> [] then mimeType r else ''video/webm'');
              b = \<lparr>blob_size = sum_list (recordedChunksRef s), blob_type = finalMimeType\<rparr>;
              s1 = s\<lparr>mediaRecorderRef := Some (r\<lparr>stop_pending := False\<rparr>)\<rparr>
          in if blob_size b > 0 then (s1\<lparr>recordedBlob := Some b\<rparr>, [])
             else (s1, [''Recording failed - no data captured. Please ensure your camera and microphone are working and try again.'']))"

definition stopRecording :: "session \<Rightarrow> session \<times> string list" where
  "stopRecording s =
     (case mediaRecorderRef s of
        None \<Rightarrow> (s, [])
      | Some r \<Rightarrow>
          if \<not> isRecording s then (s, [])
          else if recordingTime s < 1
          then (s, [''Please record for at least 1 second before stopping.''])
          else
            let s1 = s\<lparr>mediaRecorderRef := Some (recorder_stop r), isRecording := False\<rparr>;
                s2 = (case karaokeVideoRef s1 of
                        None \<Rightarrow> s1
                      | Some v \<Rightarrow> s1\<lparr>karaokeVideoRef := Some (v\<lparr>paused := True\<rparr>),
                                      karaokeVideoPlaying := False\<rparr>)
            in (s2\<lparr>recordingTimerRef := False\<rparr>, []))"

definition restartRecording :: "session \<Rightarrow> session \<times> string list" where
  "restartRecording s =
     (let (s1, alerts) = stopRecording s;
          s2 = s1\<lparr>recordedBlob := None, recordingTime := 0\<rparr>;
          s3 = (case karaokeVideoRef s2 of
                  None \<Rightarrow> s2
                | Some v \<Rightarrow> s2\<lparr>karaokeVideoRef := Some (v\<lparr>currentTime := 0, paused := True\<rparr>),
                                karaokeVideoPlaying := False\<rparr>)
      in (s3, alerts))"

section \<open>Notions of the specification\<close>

text \<open>The activity events of the log that one account owns.\<close>

definition owned_by :: "user \<Rightarrow> store \<Rightarrow> activity_log list" where
  "owned_by u st = filter (\<lambda>a. userId a = user_id u) (user_activities st)"

text \<open>The sum of the four tallies of a report.\<close>

definition tally_sum :: "user_report \<Rightarrow> nat" where
  "tally_sum r = totalSignIns r + songsSelected r + recordingsCompleted r + paymentsCompleted r"

definition strictly_descending :: "activity_log list \<Rightarrow> bool" where
  "strictly_descending as = sorted_wrt (\<lambda>a b. timestamp b < timestamp a) as"

definition descending :: "activity_log list \<Rightarrow> bool" where
  "descending as = sorted_wrt (\<lambda>a b. timestamp b \<le> timestamp a) as"

definition non_increasing :: "nat list \<Rightarrow> bool" where
  "non_increasing ns = sorted_wrt (\<lambda>m n. n \<le> m) ns"

text \<open>The lines of a text: the pieces between its line breaks, as \<^verbatim>\<open>s.split("\n")\<close> gives them.\<close>

fun split_on :: "char \<Rightarrow> string \<Rightarrow> string list" where
  "split_on c [] = [[]]"
| "split_on c (x # xs) =
     (if x = c then [] # split_on c xs
      else (case split_on c xs of [] \<Rightarrow> [[x]] | l # ls \<Rightarrow> (x # l) # ls))"

definition lines_of :: "string \<Rightarrow> string list" where
  "lines_of s = split_on newline s"

text \<open>
  A remote call fails when the request is rejected (transport error or timeout), when the
  status is not a success status, or when the body cannot be parsed.
\<close>

definition remote_failed :: "'a fetch_outcome \<Rightarrow> bool" where
  "remote_failed outcome = (case outcome of Response True (Some body) \<Rightarrow> False | _ \<Rightarrow> True)"

text \<open>The states of the recording session, read off the component's state.\<close>

definition in_Recording :: "session \<Rightarrow> bool" where
  "in_Recording s =
     (isRecording s \<and> (case mediaRecorderRef s of None \<Rightarrow> False | Some r \<Rightarrow> rec_state r = Recording))"

definition in_Ready :: "session \<Rightarrow> bool" where
  "in_Ready s = (hasPermission s \<and> \<not> isRecording s \<and> recordedBlob s = None)"

definition in_Stopped :: "session \<Rightarrow> bool" where
  "in_Stopped s = (hasPermission s \<and> \<not> isRecording s \<and> recordedBlob s \<noteq> None)"

section \<open>Example states\<close>

definition empty_store :: store where
  "empty_store = \<lparr>fallback_users = [], auth_token = None, user_data = None,
                   user_activities = [], user_purchases = []\<rparr>"

text \<open>The store after the first sign-up of the specification's example.\<close>

definition signed_up_store :: store where
  "signed_up_store =
     snd (signup USE_FALLBACK Rejected empty_store 1000 1001 1002 ''k3j9x2m1q'' 1003
            ''a@x.com'' ''p1'' None None)"

text \<open>The same account selecting a song within the millisecond of its sign-up event.\<close>

definition same_ms_store :: store where
  "same_ms_store = logSongSelection signed_up_store 1003 ''z9y8x7w6v'' 1003 ''Song'' ''adults''"

text \<open>A second account signs up.\<close>

definition two_account_store :: store where
  "two_account_store =
     snd (signup USE_FALLBACK Rejected signed_up_store 2000 2001 2002 ''p0o9i8u7y'' 2003
            ''b@x.com'' ''p2'' None None)"

text \<open>
  A stand-in for \<^verbatim>\<open>toLocaleString\<close>: what the en-US locale in UTC shows for every time
  from 1000 to 1999 milliseconds after the epoch.
\<close>

definition en_US_second_one :: "timestamp \<Rightarrow> string" where
  "en_US_second_one t = ''1/1/1970, 12:00:01 AM''"

text \<open>An account whose display name runs over two lines.\<close>

definition newline_name_store :: store where
  "newline_name_store =
     snd (signup USE_FALLBACK Rejected empty_store 1000 1001 1002 ''k3j9x2m1q'' 1003
            ''a@x.com'' ''p1'' None (Some (''Ann'' @ [newline] @ ''Lee'')))"

text \<open>An account created while the clock read 0, after it signed out.\<close>

definition zero_id_store :: store where
  "zero_id_store =
     logout USE_FALLBACK
       (snd (signup USE_FALLBACK Rejected empty_store 0 1 2 ''k3j9x2m1q'' 3 ''a@x.com'' ''p1''
               None None))"

text \<open>A session that has just been granted a stream with two live tracks.\<close>

definition ready_session :: session where
  "ready_session =
     \<lparr>isRecording = False, recordedBlob = None, recordingTime = 0, hasPermission = True,
      karaokeVideoPlaying = False, videoLoadError = False,
      karaokeVideoRef = Some \<lparr>currentTime = 0, paused = True\<rparr>,
      mediaRecorderRef = None, streamRef = Some 2, recordingTimerRef = False,
      recordedChunksRef = []\<rparr>"

text \<open>The session right after a successful start of the recording.\<close>

definition recording_session :: session where
  "recording_session = fst (startRecording (\<lambda>t. True) [] No_fault ready_session)"

section \<open>Basic facts\<close>

lemma find_SomeD: "find P xs = Some x \<Longrightarrow> P x \<and> x \<in> set xs"
  by (induction xs) (auto split: if_splits)

lemma find_append_new:
  "find P xs = None \<Longrightarrow> find P (xs @ [x]) = (if P x then Some x else None)"
  by (induction xs) (auto split: if_splits)

lemma string_of_int_1000: "string_of_int 1000 = ''1000''"
  by (simp add: string_of_int_def digits10.simps digit_char_def)

lemma logActivity_keeps:
  "fallback_users (logActivity st now rnd date ev ds) = fallback_users st"
  "auth_token (logActivity st now rnd date ev ds) = auth_token st"
  "user_data (logActivity st now rnd date ev ds) = user_data st"
  "user_purchases (logActivity st now rnd date ev ds) = user_purchases st"
  by (simp_all add: logActivity_def Let_def split: option.splits)

lemma signed_up_store_eq:
  "signed_up_store =
     \<lparr>fallback_users = [\<lparr>user_id = 1000, email = ''a@x.com'', phone = None, name = None,
                          created_at = 1001, password = Some ''p1''\<rparr>],
      auth_token = Some ''fallback_token_1000'',
      user_data = Some \<lparr>user_id = 1000, email = ''a@x.com'', phone = None, name = None,
                         created_at = 1001, password = None\<rparr>,
      user_activities = [\<lparr>activity_id = ''1002_k3j9x2m1q'', userId = 1000, eventType = Signup,
                           timestamp = 1003, details = [(''email'', Text ''a@x.com'')]\<rparr>],
      user_purchases = []\<rparr>"
  by (simp add: signed_up_store_def signup_def USE_FALLBACK_def fallbackSignup_def empty_store_def
      Let_def logActivity_def getCurrentUser_def text_field_def string_of_int_def digits10.simps
      digit_char_def)

section \<open>Sign-up and sign-in\<close>

lemma fallbackSignin_success_iff:
  "success (fst (fallbackSignin st e pw)) \<longleftrightarrow>
     (\<exists>u\<in>set (fallback_users st). email u = e \<and> password u = Some pw)"
proof (cases "find (\<lambda>u. email u = e \<and> password u = Some pw) (fallback_users st)")
  case None
  have "\<not> success (fst (fallbackSignin st e pw))"
    by (simp add: fallbackSignin_def None)
  moreover have "\<not> (\<exists>u\<in>set (fallback_users st). email u = e \<and> password u = Some pw)"
    using None by (auto simp: find_None_iff)
  ultimately show ?thesis by blast
next
  case (Some u)
  then show ?thesis using find_SomeD[OF Some] by (auto simp: fallbackSignin_def Let_def)
qed

lemma signin_fallback: "fst (signin True oc st lnow rnd ldate e pw) = fst (fallbackSignin st e pw)"
  by (simp add: signin_def split: prod.splits)

lemma signup_fallback_success:
  assumes "success (fst (signup True oc st now date lnow rnd ldate e pw ph nm))"
  shows "find (\<lambda>u. email u = e) (fallback_users st) = None"
    and "fallback_users (snd (signup True oc st now date lnow rnd ldate e pw ph nm)) =
           fallback_users st @ [\<lparr>user_id = now, email = e, phone = ph, name = nm,
                                  created_at = date, password = Some pw\<rparr>]"
    and "fst (signup True oc st now date lnow rnd ldate e pw ph nm) =
           \<lparr>success = True, message = ''Account created successfully!'',
            user = Some \<lparr>user_id = now, email = e, phone = ph, name = nm, created_at = date,
                         password = None\<rparr>,
            token = Some (''fallback_token_'' @ string_of_int now)\<rparr>"
  using assms
  by (auto simp: signup_def fallbackSignup_def Let_def logActivity_keeps split: if_splits)

lemma fallbackSignin_after_signup:
  assumes "find (\<lambda>u. email u = e) xs = None"
    and "fallback_users st' = xs @ [\<lparr>user_id = now, email = e, phone = ph, name = nm,
                                     created_at = date, password = Some S\<rparr>]"
  shows "fst (fallbackSignin st' e S') =
     (if S' = S
      then \<lparr>success = True, message = ''Signed in successfully!'',
            user = Some \<lparr>user_id = now, email = e, phone = ph, name = nm, created_at = date,
                         password = None\<rparr>,
            token = Some (''fallback_token_'' @ string_of_int now)\<rparr>
      else \<lparr>success = False, message = ''Invalid email or password.'', user = None,
            token = None\<rparr>)"
proof -
  have "find (\<lambda>u. email u = e \<and> password u = Some S') xs = None"
    using assms(1) by (auto simp: find_None_iff)
  then show ?thesis
    by (simp add: fallbackSignin_def assms(2) find_append_new Let_def)
qed

text \<open>
  Claim C3. When an account with the given email is already in the store, \<open>signup\<close> returns the
  failure value ``User already exists with this email.'' and the store it leaves is the store
  it was given: account list, activity log, session token and cached account are unchanged.
\<close>

theorem signup_duplicate_email:
  assumes "\<exists>u \<in> set (fallback_users st). email u = e"
  shows "signup USE_FALLBACK outcome st now date lnow rnd ldate e pw ph nm =
    (\<lparr>success = False, message = ''User already exists with this email.'', user = None,
      token = None\<rparr>, st)"
  using assms
  by (auto simp: signup_def USE_FALLBACK_def fallbackSignup_def find_None_iff Let_def)

theorem signup_duplicate_email_witness:
  "(\<exists>u \<in> set (fallback_users signed_up_store). email u = ''a@x.com'') \<and>
   signup USE_FALLBACK Rejected signed_up_store 2000 2001 2002 ''p0o9i8u7y'' 2003
     ''a@x.com'' ''p2'' None None =
    (\<lparr>success = False, message = ''User already exists with this email.'', user = None,
      token = None\<rparr>, signed_up_store)"
proof -
  have h: "\<exists>u \<in> set (fallback_users signed_up_store). email u = ''a@x.com''"
    by (simp add: signed_up_store_eq)
  show ?thesis
    using h signup_duplicate_email [OF h, of Rejected 2000 2001 2002 "''p0o9i8u7y''" 2003 "''p2''" None None]
    by simp
qed

text \<open>
  Claim C4. On the fallback path \<open>signin\<close> succeeds exactly when some stored account has the
  given email and the given secret. After a successful \<open>signup\<close> with secret \<open>S\<close>, \<open>signin\<close> with
  that email and \<open>S\<close> succeeds with the account and token of the sign-up, and \<open>signin\<close> with that
  email and any other secret returns ``Invalid email or password.''.
\<close>

theorem signin_credentials:
  "(success (fst (signin USE_FALLBACK oc st lnow rnd ldate e pw)) \<longleftrightarrow>
      (\<exists>u\<in>set (fallback_users st). email u = e \<and> password u = Some pw))
   \<and> (success (fst (signup USE_FALLBACK oc0 st now0 date0 lnow0 rnd0 ldate0 e S ph nm)) \<longrightarrow>
        fst (signin USE_FALLBACK oc
               (snd (signup USE_FALLBACK oc0 st now0 date0 lnow0 rnd0 ldate0 e S ph nm))
               lnow rnd ldate e S) =
          \<lparr>success = True, message = ''Signed in successfully!'',
           user = user (fst (signup USE_FALLBACK oc0 st now0 date0 lnow0 rnd0 ldate0 e S ph nm)),
           token = token (fst (signup USE_FALLBACK oc0 st now0 date0 lnow0 rnd0 ldate0 e S ph nm))\<rparr>
        \<and> (\<forall>S'. S' \<noteq> S \<longrightarrow>
              fst (signin USE_FALLBACK oc
                     (snd (signup USE_FALLBACK oc0 st now0 date0 lnow0 rnd0 ldate0 e S ph nm))
                     lnow rnd ldate e S') =
                \<lparr>success = False, message = ''Invalid email or password.'', user = None,
                 token = None\<rparr>))"
proof (intro conjI impI allI)
  show "success (fst (signin USE_FALLBACK oc st lnow rnd ldate e pw)) \<longleftrightarrow>
      (\<exists>u\<in>set (fallback_users st). email u = e \<and> password u = Some pw)"
    by (simp add: USE_FALLBACK_def signin_fallback fallbackSignin_success_iff)
next
  assume ok: "success (fst (signup USE_FALLBACK oc0 st now0 date0 lnow0 rnd0 ldate0 e S ph nm))"
  then have ok': "success (fst (signup True oc0 st now0 date0 lnow0 rnd0 ldate0 e S ph nm))"
    by (simp add: USE_FALLBACK_def)
  note f = signup_fallback_success[OF ok']
  show "fst (signin USE_FALLBACK oc
               (snd (signup USE_FALLBACK oc0 st now0 date0 lnow0 rnd0 ldate0 e S ph nm))
               lnow rnd ldate e S) =
          \<lparr>success = True, message = ''Signed in successfully!'',
           user = user (fst (signup USE_FALLBACK oc0 st now0 date0 lnow0 rnd0 ldate0 e S ph nm)),
           token = token (fst (signup USE_FALLBACK oc0 st now0 date0 lnow0 rnd0 ldate0 e S ph nm))\<rparr>"
    using fallbackSignin_after_signup[OF f(1) f(2), of S]
    by (simp add: USE_FALLBACK_def signin_fallback f(3))
  fix S' assume "S' \<noteq> S"
  then show "fst (signin USE_FALLBACK oc
                     (snd (signup USE_FALLBACK oc0 st now0 date0 lnow0 rnd0 ldate0 e S ph nm))
                     lnow rnd ldate e S') =
                \<lparr>success = False, message = ''Invalid email or password.'', user = None,
                 token = None\<rparr>"
    using fallbackSignin_after_signup[OF f(1) f(2), of S']
    by (simp add: USE_FALLBACK_def signin_fallback)
qed

theorem signin_credentials_witness:
  "success (fst (signup USE_FALLBACK Rejected empty_store 1000 1001 1002 ''k3j9x2m1q'' 1003
                   ''a@x.com'' ''p1'' None None)) \<and>
   ''p2'' \<noteq> ''p1'' \<and>
   fst (signin USE_FALLBACK Rejected signed_up_store 3000 ''a1s2d3f4g'' 3001 ''a@x.com'' ''p1'') =
     \<lparr>success = True, message = ''Signed in successfully!'',
      user = Some \<lparr>user_id = 1000, email = ''a@x.com'', phone = None, name = None,
                   created_at = 1001, password = None\<rparr>,
      token = Some ''fallback_token_1000''\<rparr> \<and>
   fst (signin USE_FALLBACK Rejected signed_up_store 3000 ''a1s2d3f4g'' 3001 ''a@x.com'' ''p2'') =
     \<lparr>success = False, message = ''Invalid email or password.'', user = None, token = None\<rparr>"
proof -
  have ok: "success (fst (signup USE_FALLBACK Rejected empty_store 1000 1001 1002 ''k3j9x2m1q'' 1003
                   ''a@x.com'' ''p1'' None None))"
    by (simp add: signup_def USE_FALLBACK_def fallbackSignup_def empty_store_def Let_def)
  have res: "fst (signup USE_FALLBACK Rejected empty_store 1000 1001 1002 ''k3j9x2m1q'' 1003
                   ''a@x.com'' ''p1'' None None) =
      \<lparr>success = True, message = ''Account created successfully!'',
       user = Some \<lparr>user_id = 1000, email = ''a@x.com'', phone = None, name = None,
                    created_at = 1001, password = None\<rparr>,
       token = Some ''fallback_token_1000''\<rparr>"
    by (simp add: signup_def USE_FALLBACK_def fallbackSignup_def empty_store_def Let_def
        string_of_int_1000)
  have ne: "''p2'' \<noteq> ''p1''" by simp
  show ?thesis
    using ok ne res
      signin_credentials [of Rejected empty_store 3000 "''a1s2d3f4g''" 3001 "''a@x.com''" "''p1''"
        Rejected 1000 1001 1002 "''k3j9x2m1q''" 1003 "''p1''" None None]
    by (simp add: signed_up_store_def)
qed

text \<open>
  Claim C9. The account returned by \<open>signin\<close> on the fallback path and the account that
  \<open>getUserById\<close> resolves for the report operations carry no \<open>password\<close> property, whatever
  the store holds.
\<close>

theorem no_password_exposed:
  "(case user (fst (signin USE_FALLBACK oc st lnow rnd ldate e pw)) of
      None \<Rightarrow> True | Some u \<Rightarrow> password u = None)
   \<and> (case getUserById st uid of None \<Rightarrow> True | Some u \<Rightarrow> password u = None)"
  by (auto simp: USE_FALLBACK_def signin_fallback fallbackSignin_def getUserById_def Let_def
      split: option.splits)

theorem no_password_exposed_witness:
  "user (fst (signin USE_FALLBACK Rejected signed_up_store 3000 ''a1s2d3f4g'' 3001 ''a@x.com'' ''p1''))
     = Some \<lparr>user_id = 1000, email = ''a@x.com'', phone = None, name = None, created_at = 1001,
              password = None\<rparr>
   \<and> getUserById signed_up_store 1000
     = Some \<lparr>user_id = 1000, email = ''a@x.com'', phone = None, name = None, created_at = 1001,
              password = None\<rparr>"
  using no_password_exposed [of Rejected signed_up_store 3000 "''a1s2d3f4g''" 3001 "''a@x.com''" "''p1''" 1000]
  by (simp add: signed_up_store_eq USE_FALLBACK_def signin_fallback fallbackSignin_def
      getUserById_def Let_def)

section \<open>Purchases\<close>

text \<open>
  Claim C5. \<open>savePurchase\<close> appends the purchase, with its identifier and time, to the local
  purchase list and touches nothing else in the store; that write is the first thing it does,
  before the one remote call the non-fallback path makes. In fallback mode and whenever the
  remote call fails the result is a success value, with the message ``Purchase saved locally
  (API unavailable).'' after a remote failure; the local write stays.
\<close>

theorem savePurchase_local_first:
  "(case savePurchase fb outcome st now date pd of (res, st', trace) \<Rightarrow>
      st' = st\<lparr>user_purchases := user_purchases st @
               [\<lparr>purchase_user_id = purchase_user_id pd, song_title = song_title pd,
                 artist_name = artist_name pd, category = category pd, video_url = video_url pd,
                 amount = amount pd, purchase_id = now, purchased_at = date\<rparr>]\<rparr>
      \<and> trace = LocalWrite ''user_purchases'' # (if fb then [] else [RemoteCall ''/api/purchases''])
      \<and> (fb \<longrightarrow> res = \<lparr>success = True, message = ''Purchase saved successfully!''\<rparr>)
      \<and> (\<not> fb \<and> remote_failed outcome \<longrightarrow>
            res = \<lparr>success = True, message = ''Purchase saved locally (API unavailable).''\<rparr>)
      \<and> (fb \<or> remote_failed outcome \<longrightarrow> success res))"
  by (auto simp: savePurchase_def Let_def remote_failed_def
      split: fetch_outcome.splits bool.splits option.splits)

theorem savePurchase_local_first_witness:
  "remote_failed (Response False (None :: result option)) \<and>
   savePurchase False (Response False None) empty_store 5000 5001
      \<lparr>purchase_user_id = 1000, song_title = ''Song'', artist_name = ''Ann'', category = ''adults'',
       video_url = ''blob:1'', amount = 5\<rparr> =
     (\<lparr>success = True, message = ''Purchase saved locally (API unavailable).''\<rparr>,
      empty_store\<lparr>user_purchases :=
        [\<lparr>purchase_user_id = 1000, song_title = ''Song'', artist_name = ''Ann'',
          category = ''adults'', video_url = ''blob:1'', amount = 5, purchase_id = 5000,
          purchased_at = 5001\<rparr>]\<rparr>,
      [LocalWrite ''user_purchases'', RemoteCall ''/api/purchases''])"
proof -
  have h: "remote_failed (Response False (None :: result option))"
    by (simp add: remote_failed_def)
  show ?thesis
    using h savePurchase_local_first [where fb = False and outcome = "Response False None"
        and st = empty_store and now = 5000 and date = 5001
        and pd = "\<lparr>purchase_user_id = 1000, song_title = ''Song'', artist_name = ''Ann'',
          category = ''adults'', video_url = ''blob:1'', amount = 5\<rparr>"]
    by (simp add: savePurchase_def Let_def empty_store_def)
qed

section \<open>Reports\<close>

lemma array_sort_Nil: "array_sort cmp [] = []"
  by (simp add: array_sort_def)

lemmas eval_defs = signup_def USE_FALLBACK_def fallbackSignup_def empty_store_def
  Let_def logActivity_def getCurrentUser_def text_field_def string_of_int_def digits10.simps
  digit_char_def logSongSelection_def

lemmas report_defs = getUserReport_def resolveUser_def getUserById_def array_sort_def
  count_events_def getAllUserReports_def List.map_filter_simps

lemma same_ms_store_eq:
  "same_ms_store =
     \<lparr>fallback_users = [\<lparr>user_id = 1000, email = ''a@x.com'', phone = None, name = None,
                          created_at = 1001, password = Some ''p1''\<rparr>],
      auth_token = Some ''fallback_token_1000'',
      user_data = Some \<lparr>user_id = 1000, email = ''a@x.com'', phone = None, name = None,
                         created_at = 1001, password = None\<rparr>,
      user_activities = [\<lparr>activity_id = ''1002_k3j9x2m1q'', userId = 1000, eventType = Signup,
                           timestamp = 1003, details = [(''email'', Text ''a@x.com'')]\<rparr>,
                         \<lparr>activity_id = ''1003_z9y8x7w6v'', userId = 1000,
                           eventType = Song_selection, timestamp = 1003,
                           details = [(''songTitle'', Text ''Song''), (''category'', Text ''adults'')]\<rparr>],
      user_purchases = []\<rparr>"
  by (simp add: same_ms_store_def signed_up_store_eq eval_defs)

lemma two_account_store_eq:
  "two_account_store =
     \<lparr>fallback_users = [\<lparr>user_id = 1000, email = ''a@x.com'', phone = None, name = None,
                          created_at = 1001, password = Some ''p1''\<rparr>,
                        \<lparr>user_id = 2000, email = ''b@x.com'', phone = None, name = None,
                          created_at = 2001, password = Some ''p2''\<rparr>],
      auth_token = Some ''fallback_token_2000'',
      user_data = Some \<lparr>user_id = 2000, email = ''b@x.com'', phone = None, name = None,
                         created_at = 2001, password = None\<rparr>,
      user_activities = [\<lparr>activity_id = ''1002_k3j9x2m1q'', userId = 1000, eventType = Signup,
                           timestamp = 1003, details = [(''email'', Text ''a@x.com'')]\<rparr>,
                         \<lparr>activity_id = ''2002_p0o9i8u7y'', userId = 2000, eventType = Signup,
                           timestamp = 2003, details = [(''email'', Text ''b@x.com'')]\<rparr>],
      user_purchases = []\<rparr>"
  by (simp add: two_account_store_def signed_up_store_eq eval_defs)

lemma insert_cmp_insort:
  "insert_cmp (\<lambda>a b. k b - k a) x ys = insort_key (\<lambda>a. - k a) x ys"
  by (induction ys) (auto)

lemma array_sort_sort_key:
  "array_sort (\<lambda>a b. k b - k a) xs = sort_key (\<lambda>a. - (k a :: int)) xs"
  unfolding array_sort_def sort_key_def
  by (induction xs) (simp_all add: insert_cmp_insort)

lemma mset_array_sort: "mset (array_sort (\<lambda>a b. k b - k a) xs) = mset xs"
  by (simp add: array_sort_sort_key)

lemma set_array_sort: "set (array_sort (\<lambda>a b. k b - k a) xs) = set xs"
  by (simp add: array_sort_sort_key)

lemma length_array_sort: "length (array_sort (\<lambda>a b. k b - k a) xs) = length xs"
  by (simp add: array_sort_sort_key)

lemma array_sort_sorted:
  "sorted_wrt (\<lambda>a b. k b \<le> k a) (array_sort (\<lambda>a b. k b - k a) xs)"
proof -
  have "sorted (map (\<lambda>a. - k a) (sort_key (\<lambda>a. - k a) xs))"
    by (rule sorted_sort_key)
  then show ?thesis
    by (simp add: array_sort_sort_key sorted_wrt_map)
qed

lemma array_sort_stable:
  "filter (\<lambda>y. k y = t) (array_sort (\<lambda>a b. k b - k a) xs) = filter (\<lambda>y. k y = t) xs"
proof -
  have "filter (\<lambda>y. - k y = - t) (sort_key (\<lambda>a. - k a) xs) = filter (\<lambda>y. - k y = - t) xs"
    by (rule sort_key_stable)
  then show ?thesis by (simp add: array_sort_sort_key)
qed

lemma count_events_mset:
  "mset xs = mset ys \<Longrightarrow> count_events ev xs = count_events ev ys"
proof -
  assume "mset xs = mset ys"
  then have "mset (filter (\<lambda>a. eventType a = ev) xs) = mset (filter (\<lambda>a. eventType a = ev) ys)"
    by simp
  then show ?thesis
    unfolding count_events_def by (metis size_mset)
qed

lemma count_events_total:
  "count_events Signup xs + count_events Signin xs + count_events Song_selection xs
     + count_events Recording_complete xs + count_events Payment xs = length xs"
proof (induction xs)
  case Nil
  then show ?case by (simp add: count_events_def)
next
  case (Cons a xs)
  then show ?case by (cases "eventType a") (simp_all add: count_events_def)
qed

lemma slice0_nonneg: "0 \<le> k \<Longrightarrow> slice0 xs k = take (nat k) xs"
  by (auto simp: slice0_def Let_def min_def)

lemma totalActivity_with: "totalActivity (with_totalActivity r) = tally_sum r"
  by (simp add: with_totalActivity_def tally_sum_def)

lemma resolveUser_stored:
  assumes "u \<in> set (fallback_users st)" and "user_id u \<noteq> 0"
    and "\<forall>v\<in>set (fallback_users st). user_id v = user_id u \<longrightarrow> v = u"
  shows "resolveUser st (Some (user_id u)) = Some (u\<lparr>password := None\<rparr>)"
proof -
  obtain v where v: "find (\<lambda>w. user_id w = user_id u) (fallback_users st) = Some v"
    using assms(1)
    by (cases "find (\<lambda>w. user_id w = user_id u) (fallback_users st)") (auto simp: find_None_iff)
  then have "v = u" using find_SomeD[OF v] assms(3) by auto
  then show ?thesis using v assms(2) by (simp add: resolveUser_def getUserById_def)
qed

text \<open>
  Claim C1, as stated: the report lists the \<open>N\<close> events the account owns, its tallies sum
  to \<open>N\<close>, and its entries are in strictly descending order of time. It fails for an account
  that signed up and selected a song within one millisecond: the report lists both events,
  the tallies sum to 1, since no tally counts sign-up events, and the two entries carry the
  same timestamp.
\<close>

theorem getUserReport_strict_tally_counterexample:
  "map_option (length \<circ> activities) (getUserReport same_ms_store (Some 1000)) = Some 2
   \<and> map_option tally_sum (getUserReport same_ms_store (Some 1000)) = Some 1
   \<and> map_option (strictly_descending \<circ> activities) (getUserReport same_ms_store (Some 1000))
       = Some False"
  by (simp add: same_ms_store_eq getUserReport_def resolveUser_def getUserById_def array_sort_def
      count_events_def tally_sum_def strictly_descending_def Let_def)

text \<open>
  Claim C1, amended. For the account \<open>getUserReport\<close> resolves, with \<open>N\<close> events of the log
  owned by it, the report is present, its activity list is a rearrangement of those \<open>N\<close>
  events, all owned by the account, its four tallies together with the number of sign-up
  events sum to \<open>N\<close>, and its entries are in non-increasing order of time.
\<close>

theorem getUserReport_activities:
  assumes "resolveUser st uid = Some u"
  shows "(case getUserReport st uid of
           None \<Rightarrow> False
         | Some r \<Rightarrow>
             mset (activities r) = mset (owned_by u st)
             \<and> length (activities r) = length (owned_by u st)
             \<and> (\<forall>a\<in>set (activities r). userId a = user_id u)
             \<and> tally_sum r + count_events Signup (owned_by u st) = length (owned_by u st)
             \<and> descending (activities r))"
proof -
  let ?acts = "array_sort (\<lambda>a b. timestamp b - timestamp a) (owned_by u st)"
  have m: "mset ?acts = mset (owned_by u st)" by (rule mset_array_sort)
  have c: "\<And>ev. count_events ev ?acts = count_events ev (owned_by u st)"
    by (rule count_events_mset[OF m])
  have t: "count_events Signin ?acts + count_events Song_selection ?acts
        + count_events Recording_complete ?acts + count_events Payment ?acts
        + count_events Signup (owned_by u st) = length (owned_by u st)"
    using count_events_total[of "owned_by u st"] by (simp add: c)
  have s: "\<forall>a\<in>set ?acts. userId a = user_id u"
    by (simp add: set_array_sort owned_by_def)
  have d: "descending ?acts"
    unfolding descending_def by (rule array_sort_sorted)
  have l: "length ?acts = length (owned_by u st)" by (rule length_array_sort)
  have r: "getUserReport st uid =
      Some \<lparr>report_userId = user_id u, report_email = email u, artistName = name u,
                   totalSignIns = count_events Signin ?acts,
                   songsSelected = count_events Song_selection ?acts,
                   recordingsCompleted = count_events Recording_complete ?acts,
                   paymentsCompleted = count_events Payment ?acts,
                   lastActivity = (case ?acts of [] \<Rightarrow> created_at u | a # _ \<Rightarrow> timestamp a),
                   activities = ?acts\<rparr>"
    using assms by (simp add: getUserReport_def Let_def owned_by_def)
  have ts: "tally_sum (the (getUserReport st uid)) + count_events Signup (owned_by u st)
       = length (owned_by u st)"
    unfolding r tally_sum_def using t by simp
  show ?thesis
    unfolding r using ts[unfolded r] m s d l by simp
qed

theorem getUserReport_activities_witness:
  "resolveUser same_ms_store (Some 1000) =
     Some \<lparr>user_id = 1000, email = ''a@x.com'', phone = None, name = None, created_at = 1001,
           password = None\<rparr>
   \<and> (case getUserReport same_ms_store (Some 1000) of
         None \<Rightarrow> False
       | Some r \<Rightarrow> length (activities r) = 2 \<and> tally_sum r + 1 = 2 \<and> descending (activities r))"
proof -
  let ?u = "\<lparr>user_id = 1000, email = ''a@x.com'', phone = None, name = None, created_at = 1001,
           password = None\<rparr>"
  have r: "resolveUser same_ms_store (Some 1000) = Some ?u"
    by (simp add: same_ms_store_eq resolveUser_def getUserById_def)
  have o: "length (owned_by ?u same_ms_store) = 2"
    by (simp add: same_ms_store_eq owned_by_def)
  have c: "count_events Signup (owned_by ?u same_ms_store) = 1"
    by (simp add: same_ms_store_eq owned_by_def count_events_def)
  show ?thesis
    using r getUserReport_activities [OF r]
    by (simp add: o c split: option.splits)
qed

text \<open>
  Claim C7, as stated for every limit: with two accounts in the store and the limit \<open>-1\<close>,
  \<^verbatim>\<open>slice(0, -1)\<close> drops only the last report, so one report is returned, more than the limit.
\<close>

theorem getTopUsers_negative_limit_counterexample:
  "length (getTopUsers two_account_store (Some (- 1))) = 1
   \<and> \<not> int (length (getTopUsers two_account_store (Some (- 1)))) \<le> - 1"
  by (simp add: two_account_store_eq getTopUsers_def report_defs slice0_def with_totalActivity_def)

text \<open>
  Claim C7, amended. For every limit \<open>k \<ge> 0\<close>, \<open>getTopUsers\<close> returns at most \<open>k\<close> reports,
  in non-increasing order of their total tally, which is the sum of the four tallies; and for
  each tally value the returned reports with that total are an initial part, in the original
  order, of the reports with that total.
\<close>

theorem getTopUsers_ranked:
  assumes "0 \<le> k"
  shows "int (length (getTopUsers st (Some k))) \<le> k
     \<and> non_increasing (map totalActivity (getTopUsers st (Some k)))
     \<and> (\<forall>t. prefix (filter (\<lambda>r. totalActivity r = t) (getTopUsers st (Some k)))
                     (filter (\<lambda>r. totalActivity r = t) (map with_totalActivity (getAllUserReports st))))
     \<and> (\<forall>r\<in>set (getTopUsers st (Some k)).
           totalActivity r = totalSignIns r + songsSelected r + recordingsCompleted r + paymentsCompleted r)"
proof -
  let ?rs = "map with_totalActivity (getAllUserReports st)"
  let ?sorted = "array_sort (\<lambda>a b. int (totalActivity b) - int (totalActivity a)) ?rs"
  have top: "getTopUsers st (Some k) = take (nat k) ?sorted"
    using assms by (simp add: getTopUsers_def slice0_nonneg)
  have len: "int (length (getTopUsers st (Some k))) \<le> k"
    unfolding top using assms by simp
  have "sorted_wrt (\<lambda>a b. int (totalActivity b) \<le> int (totalActivity a)) ?sorted"
    by (rule array_sort_sorted)
  then have "sorted_wrt (\<lambda>a b. totalActivity b \<le> totalActivity a) (take (nat k) ?sorted)"
    by (simp add: sorted_wrt_take)
  then have ord: "non_increasing (map totalActivity (getTopUsers st (Some k)))"
    unfolding top non_increasing_def by (simp add: sorted_wrt_map)
  have stable: "\<forall>t. prefix (filter (\<lambda>r. totalActivity r = t) (getTopUsers st (Some k)))
                     (filter (\<lambda>r. totalActivity r = t) ?rs)"
  proof
    fix t
    have "filter (\<lambda>r. int (totalActivity r) = int t) ?sorted = filter (\<lambda>r. int (totalActivity r) = int t) ?rs"
      by (rule array_sort_stable)
    then have e: "filter (\<lambda>r. totalActivity r = t) ?sorted = filter (\<lambda>r. totalActivity r = t) ?rs"
      by simp
    have "prefix (take (nat k) ?sorted) ?sorted" by (rule take_is_prefix)
    then have "prefix (filter (\<lambda>r. totalActivity r = t) (take (nat k) ?sorted))
                      (filter (\<lambda>r. totalActivity r = t) ?sorted)"
      by (rule filter_mono_prefix)
    then show "prefix (filter (\<lambda>r. totalActivity r = t) (getTopUsers st (Some k)))
                     (filter (\<lambda>r. totalActivity r = t) ?rs)"
      unfolding top e .
  qed
  have "set (getTopUsers st (Some k)) \<subseteq> set ?rs"
    unfolding top using set_take_subset[of "nat k" ?sorted] by (simp add: set_array_sort)
  then have tot: "\<forall>r\<in>set (getTopUsers st (Some k)).
           totalActivity r = totalSignIns r + songsSelected r + recordingsCompleted r + paymentsCompleted r"
    by (auto simp: with_totalActivity_def)
  show ?thesis using len ord stable tot by blast
qed

theorem getTopUsers_ranked_witness:
  "(0::int) \<le> 1
   \<and> map report_userId (getTopUsers two_account_store (Some 1)) = [1000]
   \<and> non_increasing (map totalActivity (getTopUsers two_account_store (Some 1)))"
proof -
  have h: "(0::int) \<le> 1" by simp
  have e: "map report_userId (getTopUsers two_account_store (Some 1)) = [1000]"
    by (simp add: two_account_store_eq getTopUsers_def report_defs slice0_def
        with_totalActivity_def)
  show ?thesis
    using h e getTopUsers_ranked [OF h, of two_account_store] by simp
qed

text \<open>
  Claim C10. When the account \<open>getUserReport\<close> resolves owns no event of the activity log, the
  report is present, its four tallies are 0, its activity list is empty and its last activity
  is the creation time of the account.
\<close>

theorem report_without_activity:
  assumes "resolveUser st uid = Some u"
    and "owned_by u st = []"
  shows "getUserReport st uid =
     Some \<lparr>report_userId = user_id u, report_email = email u, artistName = name u,
           totalSignIns = 0, songsSelected = 0, recordingsCompleted = 0, paymentsCompleted = 0,
           lastActivity = created_at u, activities = []\<rparr>"
  using assms by (simp add: getUserReport_def owned_by_def array_sort_Nil count_events_def)

theorem report_without_activity_witness:
  "resolveUser (signed_up_store\<lparr>user_activities := []\<rparr>) (Some 1000) =
     Some \<lparr>user_id = 1000, email = ''a@x.com'', phone = None, name = None, created_at = 1001,
           password = None\<rparr>
   \<and> owned_by \<lparr>user_id = 1000, email = ''a@x.com'', phone = None, name = None, created_at = 1001,
           password = None\<rparr> (signed_up_store\<lparr>user_activities := []\<rparr>) = []
   \<and> getUserReport (signed_up_store\<lparr>user_activities := []\<rparr>) (Some 1000) =
     Some \<lparr>report_userId = 1000, report_email = ''a@x.com'', artistName = None,
           totalSignIns = 0, songsSelected = 0, recordingsCompleted = 0, paymentsCompleted = 0,
           lastActivity = 1001, activities = []\<rparr>"
proof -
  let ?st = "signed_up_store\<lparr>user_activities := []\<rparr>"
  let ?u = "\<lparr>user_id = 1000, email = ''a@x.com'', phone = None, name = None, created_at = 1001,
           password = None\<rparr>"
  have r: "resolveUser ?st (Some 1000) = Some ?u"
    by (simp add: signed_up_store_eq resolveUser_def getUserById_def)
  have o: "owned_by ?u ?st = []"
    by (simp add: owned_by_def)
  show ?thesis
    using r o report_without_activity [OF r o] by simp
qed

section \<open>The recording session\<close>

lemma recording_session_eq:
  "recording_session =
     \<lparr>isRecording = True, recordedBlob = None, recordingTime = 0, hasPermission = True,
      karaokeVideoPlaying = True, videoLoadError = False,
      karaokeVideoRef = Some \<lparr>currentTime = 0, paused = False\<rparr>,
      mediaRecorderRef = Some \<lparr>rec_state = Recording, mimeType = ''video/webm;codecs=vp8,opus'',
                               stop_pending = False\<rparr>,
      streamRef = Some 2, recordingTimerRef = True, recordedChunksRef = []\<rparr>"
  by (simp add: recording_session_def startRecording_def ready_session_def Let_def
      pick_mimeType_def supportedTypes_def)

text \<open>
  Claim C6. In the Recording state with the elapsed-time counter below 1, \<open>stopRecording\<close>
  only raises the alert: the state is returned as it was, so the session is still recording,
  the recorder has not been stopped and the artifact slot is untouched.
\<close>

theorem stop_before_one_second:
  assumes "in_Recording s" and "recordingTime s < 1"
  shows "stopRecording s = (s, [''Please record for at least 1 second before stopping.''])
     \<and> in_Recording (fst (stopRecording s))
     \<and> mediaRecorderRef (fst (stopRecording s)) = mediaRecorderRef s
     \<and> recordedBlob (fst (stopRecording s)) = recordedBlob s"
  using assms by (auto simp: in_Recording_def stopRecording_def split: option.splits)

theorem stop_before_one_second_witness:
  "in_Recording recording_session \<and> recordingTime recording_session < 1 \<and>
   stopRecording recording_session =
     (recording_session, [''Please record for at least 1 second before stopping.''])"
proof -
  have a: "in_Recording recording_session"
    by (simp add: recording_session_eq in_Recording_def)
  have b: "recordingTime recording_session < 1"
    by (simp add: recording_session_eq)
  show ?thesis
    using a b stop_before_one_second [OF a b] by simp
qed

text \<open>
  Away from the first second of a recording, \<open>restartRecording\<close> leaves the session Ready
  with the counter at 0.
\<close>

lemma restartRecording_ready:
  assumes "hasPermission s"
    and "isRecording s \<Longrightarrow> mediaRecorderRef s \<noteq> None \<and> 1 \<le> recordingTime s"
  shows "in_Ready (fst (restartRecording s)) \<and> recordingTime (fst (restartRecording s)) = 0"
  using assms
  by (cases "isRecording s")
     (auto simp: restartRecording_def stopRecording_def in_Ready_def Let_def split: option.splits)

text \<open>
  Claim C2. The claim fails on the code: a restart requested while the counter of a running
  recording is still 0 is caught by the one-second guard of \<open>stopRecording\<close>, so the recorder
  is not stopped and the session stays in the Recording state, not Ready; only the counter,
  the artifact slot and the reference video are reset.
\<close>

theorem restart_in_first_second:
  "in_Recording recording_session \<and> recordingTime recording_session = 0 \<and>
   restartRecording recording_session =
     (recording_session\<lparr>karaokeVideoRef := Some \<lparr>currentTime = 0, paused = True\<rparr>,
                        karaokeVideoPlaying := False\<rparr>,
      [''Please record for at least 1 second before stopping.'']) \<and>
   in_Recording (fst (restartRecording recording_session)) \<and>
   \<not> in_Ready (fst (restartRecording recording_session))"
  by (simp add: recording_session_eq restartRecording_def stopRecording_def in_Recording_def
      in_Ready_def Let_def)

text \<open>
  A restart after the first second stops the recorder, and the \<open>stop\<close> event it leaves
  pending stores the discarded recording as the artifact once it is delivered.
\<close>

lemma restart_then_stop_event:
  "in_Ready (fst (restartRecording (tick (ondataavailable 4096 recording_session)))) \<and>
   in_Stopped (fst (onstop (fst (restartRecording (tick (ondataavailable 4096 recording_session))))))"
  by (simp add: recording_session_eq restartRecording_def stopRecording_def tick_def
      ondataavailable_def onstop_def recorder_stop_def in_Ready_def in_Stopped_def Let_def)

section \<open>The export\<close>

lemma split_on_nonempty: "split_on c s \<noteq> []"
  by (induction s) (auto split: list.splits)

lemma split_on_no_sep: "c \<notin> set s \<Longrightarrow> split_on c s = [s]"
  by (induction s) auto

lemma split_on_append: "c \<notin> set x \<Longrightarrow> split_on c (x @ c # rest) = x # split_on c rest"
  by (induction x) (auto split: list.splits)

lemma split_on_join:
  "xs \<noteq> [] \<Longrightarrow> \<forall>x\<in>set xs. c \<notin> set x \<Longrightarrow> split_on c (join [c] xs) = xs"
proof (induction "[c]" xs rule: join.induct)
  case 1
  then show ?case by simp
next
  case (2 x)
  then show ?case by (simp add: split_on_no_sep)
next
  case (3 x y ys)
  then show ?case by (simp add: split_on_append)
qed

lemma set_join: "set (join sep xs) \<subseteq> set sep \<union> \<Union> (set ` set xs)"
  by (induction sep xs rule: join.induct) auto

lemma digit_char_in: "d < 10 \<Longrightarrow> digit_char d \<in> set ''0123456789''"
  unfolding digit_char_def by (rule nth_mem) simp

lemma set_digits10: "set (digits10 n) \<subseteq> set ''0123456789''"
proof (induction n rule: digits10.induct)
  case (1 n)
  show ?case
  proof (cases "n < 10")
    case True
    then show ?thesis using digit_char_in[of n] by (subst digits10.simps) simp
  next
    case False
    have "n mod 10 < 10" by simp
    then have "digit_char (n mod 10) \<in> set ''0123456789''" by (rule digit_char_in)
    then show ?thesis using False 1 by (subst digits10.simps) simp
  qed
qed

lemma newline_string_of_int: "newline \<notin> set (string_of_int i)"
  using set_digits10[of "nat i"] set_digits10[of "nat (- i)"]
  by (auto simp: string_of_int_def newline_def)

lemma newline_quoted: "newline \<notin> set s \<Longrightarrow> newline \<notin> set (quoted s)"
  by (simp add: quoted_def quote_def newline_def)

lemma newline_csv_row:
  assumes "newline \<notin> set (report_email r)"
    and "newline \<notin> set (case artistName r of None \<Rightarrow> [] | Some s \<Rightarrow> s)"
    and "newline \<notin> set (toLocaleString (lastActivity r))"
  shows "newline \<notin> set (csv_row toLocaleString r)"
proof -
  have "newline \<notin> set '',''" by (simp add: newline_def)
  then show ?thesis
    unfolding csv_row_def
    using set_join[of "'',''"] assms
    by (auto simp: newline_string_of_int newline_quoted dest!: subsetD)
qed

lemma newline_header: "newline \<notin> set (join '','' headers)"
  by (simp add: headers_def newline_def)

lemma csv_row_shape:
  "csv_row toLocaleString r =
     string_of_int (report_userId r) @ '','' @
     [quote] @ report_email r @ [quote] @ '','' @
     [quote] @ (case artistName r of None \<Rightarrow> [] | Some s \<Rightarrow> s) @ [quote] @ '','' @
     string_of_int (int (totalSignIns r)) @ '','' @
     string_of_int (int (songsSelected r)) @ '','' @
     string_of_int (int (recordingsCompleted r)) @ '','' @
     string_of_int (int (paymentsCompleted r)) @ '','' @
     [quote] @ toLocaleString (lastActivity r) @ [quote]"
  by (simp add: csv_row_def quoted_def)

lemma getUserReport_by_id:
  assumes "u \<in> set (fallback_users st)" and "user_id u \<noteq> 0"
  shows "\<exists>r v. getUserReport st (Some (user_id u)) = Some r \<and> v \<in> set (fallback_users st)
             \<and> report_userId r = user_id u \<and> report_email r = email v \<and> artistName r = name v"
proof -
  obtain v where v: "find (\<lambda>w. user_id w = user_id u) (fallback_users st) = Some v"
    using assms(1)
    by (cases "find (\<lambda>w. user_id w = user_id u) (fallback_users st)") (auto simp: find_None_iff)
  have "v \<in> set (fallback_users st)" "user_id v = user_id u" using find_SomeD[OF v] by auto
  then show ?thesis using v assms(2)
    by (auto simp: getUserReport_def resolveUser_def getUserById_def Let_def)
qed

lemma map_filter_all_Some:
  "\<forall>x\<in>set xs. f x \<noteq> None \<Longrightarrow> List.map_filter f xs = map (the \<circ> f) xs"
  by (induction xs) (auto simp: List.map_filter_simps)

lemma getAllUserReports_nonzero:
  assumes "\<forall>u\<in>set (fallback_users st). user_id u \<noteq> 0"
  shows "getAllUserReports st = map (\<lambda>u. the (getUserReport st (Some (user_id u)))) (fallback_users st)"
proof -
  have "\<forall>u\<in>set (fallback_users st). getUserReport st (Some (user_id u)) \<noteq> None"
    using getUserReport_by_id assms by fastforce
  then show ?thesis
    unfolding getAllUserReports_def by (simp add: map_filter_all_Some comp_def)
qed

lemma header_row:
  "join '','' headers =
     ''User ID,Email,Artist Name,Sign-ins,Songs Selected,Recordings,Payments,Last Activity''"
  by (simp add: headers_def)

text \<open>
  Claim C8, as stated: the export of a store with \<open>M\<close> accounts has \<open>1 + M\<close> lines. It fails
  for one account whose display name holds a line break, which the export copies unescaped
  (three lines), and for one account with the identifier 0 and no session, for which
  \<open>getUserReport\<close> finds no account and the export has the header line only.
\<close>

theorem exportUserData_lines_counterexample:
  "length (fallback_users newline_name_store) = 1
   \<and> length (lines_of (exportUserData en_US_second_one newline_name_store)) = 3
   \<and> length (fallback_users zero_id_store) = 1
   \<and> length (lines_of (exportUserData en_US_second_one zero_id_store)) = 1"
  by (simp add: newline_name_store_def zero_id_store_def logout_def eval_defs report_defs
      exportUserData_def csv_row_def lines_of_def headers_def quoted_def en_US_second_one_def
      newline_def quote_def)

text \<open>
  Claim C8, amended. For a store with \<open>M\<close> accounts whose identifiers are all non-zero, and
  no line break in any email, display name or rendered date, the export consists of exactly
  \<open>1 + M\<close> lines: the fixed header row, then one row per account. In every row the email and
  the display name of a stored account (empty when absent) and the rendered date stand
  between double quotes exactly as they are, with no character changed or escaped.
\<close>

theorem exportUserData_lines:
  assumes ids: "\<forall>u\<in>set (fallback_users st). user_id u \<noteq> 0"
    and txts: "\<forall>u\<in>set (fallback_users st).
                newline \<notin> set (email u) \<and> newline \<notin> set (case name u of None \<Rightarrow> [] | Some s \<Rightarrow> s)"
    and loc: "\<forall>t. newline \<notin> set (toLocaleString t)"
  shows "lines_of (exportUserData toLocaleString st) =
           ''User ID,Email,Artist Name,Sign-ins,Songs Selected,Recordings,Payments,Last Activity''
             # map (csv_row toLocaleString) (getAllUserReports st)
     \<and> length (getAllUserReports st) = length (fallback_users st)
     \<and> length (lines_of (exportUserData toLocaleString st)) = 1 + length (fallback_users st)
     \<and> (\<forall>r\<in>set (getAllUserReports st).
           (\<exists>v\<in>set (fallback_users st). report_email r = email v \<and> artistName r = name v)
           \<and> csv_row toLocaleString r =
               string_of_int (report_userId r) @ '','' @
               [quote] @ report_email r @ [quote] @ '','' @
               [quote] @ (case artistName r of None \<Rightarrow> [] | Some s \<Rightarrow> s) @ [quote] @ '','' @
               string_of_int (int (totalSignIns r)) @ '','' @
               string_of_int (int (songsSelected r)) @ '','' @
               string_of_int (int (recordingsCompleted r)) @ '','' @
               string_of_int (int (paymentsCompleted r)) @ '','' @
               [quote] @ toLocaleString (lastActivity r) @ [quote])"
proof -
  let ?rows = "map (csv_row toLocaleString) (getAllUserReports st)"
  have all: "getAllUserReports st =
      map (\<lambda>u. the (getUserReport st (Some (user_id u)))) (fallback_users st)"
    by (rule getAllUserReports_nonzero[OF ids])
  have len: "length (getAllUserReports st) = length (fallback_users st)"
    by (simp add: all)
  have src: "\<forall>r\<in>set (getAllUserReports st).
      \<exists>v\<in>set (fallback_users st). report_email r = email v \<and> artistName r = name v"
  proof
    fix r assume "r \<in> set (getAllUserReports st)"
    then obtain u where u: "u \<in> set (fallback_users st)"
      and r: "r = the (getUserReport st (Some (user_id u)))"
      unfolding all by auto
    from getUserReport_by_id[OF u] ids u
    obtain r' v where "getUserReport st (Some (user_id u)) = Some r'" "v \<in> set (fallback_users st)"
      "report_email r' = email v" "artistName r' = name v" by blast
    then show "\<exists>v\<in>set (fallback_users st). report_email r = email v \<and> artistName r = name v"
      using r by auto
  qed
  have rows: "\<forall>x\<in>set ?rows. newline \<notin> set x"
  proof
    fix x assume "x \<in> set ?rows"
    then obtain r where r: "r \<in> set (getAllUserReports st)" and x: "x = csv_row toLocaleString r"
      by auto
    from src r obtain v where "v \<in> set (fallback_users st)" "report_email r = email v"
      "artistName r = name v" by blast
    then have "newline \<notin> set (report_email r)"
      "newline \<notin> set (case artistName r of None \<Rightarrow> [] | Some s \<Rightarrow> s)"
      using txts by auto
    then show "newline \<notin> set x"
      unfolding x using loc by (intro newline_csv_row) auto
  qed
  have "\<forall>x\<in>set (join '','' headers # ?rows). newline \<notin> set x"
    using rows newline_header by simp
  then have "split_on newline (join [newline] (join '','' headers # ?rows)) = join '','' headers # ?rows"
    by (intro split_on_join) simp_all
  then have lines: "lines_of (exportUserData toLocaleString st) = join '','' headers # ?rows"
    by (simp add: lines_of_def exportUserData_def)
  show ?thesis
    using lines len src by (simp add: header_row csv_row_shape)
qed

theorem exportUserData_lines_witness:
  "lines_of (exportUserData en_US_second_one signed_up_store) =
     [''User ID,Email,Artist Name,Sign-ins,Songs Selected,Recordings,Payments,Last Activity'',
      ''1000,'' @ [quote] @ ''a@x.com'' @ [quote] @ '','' @ [quote] @ [quote]
        @ '',0,0,0,0,'' @ [quote] @ ''1/1/1970, 12:00:01 AM'' @ [quote]]
   \<and> length (lines_of (exportUserData en_US_second_one signed_up_store)) = 2"
proof -
  have ids: "\<forall>u\<in>set (fallback_users signed_up_store). user_id u \<noteq> 0"
    by (simp add: signed_up_store_eq)
  have txts: "\<forall>u\<in>set (fallback_users signed_up_store).
      newline \<notin> set (email u) \<and> newline \<notin> set (case name u of None \<Rightarrow> [] | Some s \<Rightarrow> s)"
    by (simp add: signed_up_store_eq newline_def)
  have loc: "\<forall>t. newline \<notin> set (en_US_second_one t)"
    by (simp add: en_US_second_one_def newline_def)
  have rows: "map (csv_row en_US_second_one) (getAllUserReports signed_up_store) =
      [''1000,'' @ [quote] @ ''a@x.com'' @ [quote] @ '','' @ [quote] @ [quote]
        @ '',0,0,0,0,'' @ [quote] @ ''1/1/1970, 12:00:01 AM'' @ [quote]]"
    by (simp add: signed_up_store_eq eval_defs report_defs csv_row_def quoted_def
        en_US_second_one_def)
  show ?thesis
    using exportUserData_lines [OF ids txts loc] by (simp add: rows)
qed

end
